theory Spec2Isabelle
  imports Complex_Main "HOL-Library.Word" "HOL-Library.Sublist"
begin

section \<open>The syslog injector: data model\<close>

text \<open>
  The program is \<^verbatim>\<open>src/syslog_injector.cpp\<close>. The C++ \<^verbatim>\<open>int\<close> fields of
  \<^verbatim>\<open>Config\<close> are 32-bit words read as two's complement (\<open>sint\<close>); the
  \<^verbatim>\<open>uint64_t\<close> counters are 64-bit words. Time points of
  \<^verbatim>\<open>std::chrono::steady_clock\<close> are integers counting nanoseconds.
\<close>

type_synonym int32 = "32 word"
type_synonym uint64 = "64 word"

record Config =
  socket_path :: string
  message_format :: string
  target_rate :: int32
  duration :: int32
  batch_size :: int32
  verbose :: bool

record Stats =
  messages_sent :: uint64
  bytes_sent :: uint64
  errors :: uint64
  start_time :: int

subsection \<open>Integer arithmetic of the source language\<close>

text \<open>The operator \<^verbatim>\<open>/\<close> on signed integers truncates towards zero.\<close>

definition tdiv :: "int \<Rightarrow> int \<Rightarrow> int" where
  "tdiv a b = (if (a < 0) = (b < 0) then \<bar>a\<bar> div \<bar>b\<bar> else - (\<bar>a\<bar> div \<bar>b\<bar>))"

text \<open>
  The value a 32-bit two's complement register holds after an operation whose
  mathematical result is \<open>x\<close>.
\<close>

definition wrap32 :: "int \<Rightarrow> int" where
  "wrap32 x = (x + 2 ^ 31) mod 2 ^ 32 - 2 ^ 31"

text \<open>
  Integer division by zero, and the quotient \<^verbatim>\<open>INT_MIN / -1\<close>, have no defined
  result (the division instruction raises the arithmetic signal).
\<close>

datatype fault = DivisionFault

text \<open>
  Lines 189-190: \<^verbatim>\<open>(config.batch_size * 1000000) / config.target_rate\<close>, evaluated
  in \<^verbatim>\<open>int\<close>. The product is the 32-bit word product: the language leaves signed
  overflow undefined, and the multiply instruction the compilers emit for it wraps.
\<close>

definition batch_interval_us :: "Config \<Rightarrow> fault + int" where
  "batch_interval_us config =
     (let prod = sint (batch_size config * 1000000);
          rate = sint (target_rate config)
      in if rate = 0 then Inl DivisionFault
         else if prod = - (2 ^ 31) \<and> rate = - 1 then Inl DivisionFault
         else Inr (tdiv prod rate))"

subsection \<open>Strings\<close>

text \<open>\<^verbatim>\<open>std::string::find(pat)\<close>: the first position where \<open>pat\<close> occurs, if any.\<close>

fun find_str :: "string \<Rightarrow> string \<Rightarrow> nat option" where
  "find_str [] pat = (if pat = [] then Some 0 else None)"
| "find_str (c # cs) pat =
     (if prefix pat (c # cs) then Some 0 else map_option Suc (find_str cs pat))"

text \<open>\<^verbatim>\<open>s.replace(pos, len, str)\<close> for \<open>pos \<le> length s\<close>.\<close>

definition replace_at :: "string \<Rightarrow> nat \<Rightarrow> nat \<Rightarrow> string \<Rightarrow> string" where
  "replace_at s pos len str = take pos s @ str @ drop (pos + len) s"

text \<open>\<^verbatim>\<open>std::to_string\<close> on an unsigned value: its decimal digits.\<close>

definition digit_char :: "nat \<Rightarrow> char" where
  "digit_char d = ''0123456789'' ! d"

fun to_string :: "nat \<Rightarrow> string" where
  "to_string n = (if n < 10 then [digit_char n] else to_string (n div 10) @ [digit_char (n mod 10)])"

declare to_string.simps [simp del]

subsection \<open>Message formatter (lines 85-123)\<close>

text \<open>
  What \<^verbatim>\<open>format_message\<close> reads from its surroundings: the wall-clock time already
  rendered as \<^verbatim>\<open>YYYY-MM-DDTHH:MM:SS.mmmZ\<close>, the host name and the process id.
\<close>

record ambient =
  timestamp :: string
  hostname :: string
  pid :: nat

definition format_message :: "ambient \<Rightarrow> string \<Rightarrow> uint64 \<Rightarrow> string" where
  "format_message amb format_template counter =
     (let result = format_template;
          result = (case find_str result ''{counter}'' of
                      None \<Rightarrow> result
                    | Some pos \<Rightarrow> replace_at result pos 9 (to_string (unat counter)));
          result = (case find_str result ''{timestamp}'' of
                      None \<Rightarrow> result
                    | Some pos \<Rightarrow> replace_at result pos 11 (timestamp amb));
          result = (case find_str result ''{hostname}'' of
                      None \<Rightarrow> result
                    | Some pos \<Rightarrow> replace_at result pos 10 (hostname amb));
          result = (case find_str result ''{pid}'' of
                      None \<Rightarrow> result
                    | Some pos \<Rightarrow> replace_at result pos 5 (to_string (pid amb)))
      in result)"

text \<open>
  The formatter in the words of the specification: a placeholder is replaced once, at
  its first occurrence, and a text without it is left as it is.
\<close>

fun replace_first :: "string \<Rightarrow> string \<Rightarrow> string \<Rightarrow> string" where
  "replace_first pat rep [] = []"
| "replace_first pat rep (x # xs) =
     (if prefix pat (x # xs) then rep @ drop (length pat) (x # xs)
      else x # replace_first pat rep xs)"

subsection \<open>Statistics snapshot (lines 147-171)\<close>

text \<open>
  What \<^verbatim>\<open>print_stats\<close> writes to the console. The \<^verbatim>\<open>double\<close> values are
  modelled by the real numbers they approximate; the comparison \<^verbatim>\<open>elapsed > 0\<close> is
  exact, since \<open>elapsed\<close> is an integer count of milliseconds divided by 1000.
\<close>

record snapshot =
  snap_final :: bool
  snap_elapsed :: real
  snap_messages :: uint64
  snap_bytes :: uint64
  snap_errors :: uint64
  snap_msg_rate :: real
  snap_byte_rate :: real

definition stats_snapshot :: "Stats \<Rightarrow> int \<Rightarrow> bool \<Rightarrow> snapshot" where
  "stats_snapshot st now final =
     (let elapsed = real_of_int (tdiv (now - start_time st) 1000000) / 1000;
          messages = messages_sent st;
          bytes = bytes_sent st;
          errs = errors st;
          msg_rate = (if elapsed > 0 then real (unat messages) / elapsed else 0);
          byte_rate = (if elapsed > 0 then real (unat bytes) / elapsed else 0)
      in \<lparr>snap_final = final, snap_elapsed = elapsed, snap_messages = messages,
          snap_bytes = bytes, snap_errors = errs,
          snap_msg_rate = msg_rate, snap_byte_rate = byte_rate\<rparr>)"

section \<open>The run: environment, events and state\<close>

text \<open>
  Everything \<^verbatim>\<open>run_test\<close> reads from outside is an oracle indexed by the number of
  earlier reads of the same kind: the value of the flag \<^verbatim>\<open>running\<close> (written only
  by the signal handler), the readings of the steady clock, the results of the system
  calls \<^verbatim>\<open>socket\<close>, \<^verbatim>\<open>connect\<close> and \<^verbatim>\<open>send\<close>, and the surroundings of each
  call of \<^verbatim>\<open>format_message\<close>.
\<close>

record env =
  running_at :: "nat \<Rightarrow> bool"
  steady_now :: "nat \<Rightarrow> int"
  sys_socket :: "nat \<Rightarrow> int"
  sys_connect :: "nat \<Rightarrow> int"
  sys_send :: "nat \<Rightarrow> int"
  ambient_at :: "nat \<Rightarrow> ambient"

text \<open>
  What the run does to the outside, in order. The banner and the diagnostic lines on
  the console are not recorded.
\<close>

datatype event =
    Poll bool
  | Connect string int
  | Send int string int
  | Close int
  | SleepFor int
  | SleepUntil int
  | PrintStats snapshot

text \<open>
  The local variables of \<^verbatim>\<open>run_test\<close>, the number of reads made of each oracle, and
  the events so far.
\<close>

record state =
  sock :: int
  stats :: Stats
  counter :: uint64
  next_batch_time :: int
  last_print_time :: int
  polls :: nat
  clocks :: nat
  conns :: nat
  sends :: nat
  trace :: "event list"

definition emit :: "event list \<Rightarrow> state \<Rightarrow> state" where
  "emit evs st = st\<lparr>trace := trace st @ evs\<rparr>"

definition poll_running :: "env \<Rightarrow> state \<Rightarrow> bool \<times> state" where
  "poll_running e st =
     (let r = running_at e (polls st)
      in (r, emit [Poll r] (st\<lparr>polls := polls st + 1\<rparr>)))"

definition read_clock :: "env \<Rightarrow> state \<Rightarrow> int \<times> state" where
  "read_clock e st = (steady_now e (clocks st), st\<lparr>clocks := clocks st + 1\<rparr>)"

text \<open>
  Lines 125-145. \<open>Connect path r\<close> is one attempt (\<^verbatim>\<open>socket\<close>, then
  \<^verbatim>\<open>connect\<close>) and the value the function returns for it; a socket whose
  \<^verbatim>\<open>connect\<close> failed is closed.
\<close>

definition connect_to_socket :: "env \<Rightarrow> string \<Rightarrow> state \<Rightarrow> int \<times> state" where
  "connect_to_socket e path st =
     (let n = conns st;
          s = sys_socket e n;
          st = st\<lparr>conns := n + 1\<rparr>
      in if s < 0 then (- 1, emit [Connect path (- 1)] st)
         else if sys_connect e n < 0 then (- 1, emit [Connect path (- 1), Close s] st)
         else (s, emit [Connect path s] st))"

definition print_stats :: "env \<Rightarrow> bool \<Rightarrow> state \<Rightarrow> state" where
  "print_stats e final st =
     (case read_clock e st of
        (now, st) \<Rightarrow> emit [PrintStats (stats_snapshot (stats st) now final)] st)"

subsection \<open>One pass of the inner loop body (lines 208-229)\<close>

text \<open>The boolean result is \<open>True\<close> where the source executes \<^verbatim>\<open>return 1\<close>.\<close>

definition send_one :: "env \<Rightarrow> Config \<Rightarrow> state \<Rightarrow> bool \<times> state" where
  "send_one e config st =
     (let message = format_message (ambient_at e (sends st)) (message_format config) (counter st)
                      @ [CHR 0x0A];
          st = st\<lparr>counter := counter st + 1\<rparr>;
          sent = sys_send e (sends st);
          st = emit [Send (sock st) message sent] (st\<lparr>sends := sends st + 1\<rparr>)
      in if sent < 0 then
           (let st = st\<lparr>stats := (stats st)\<lparr>errors := errors (stats st) + 1\<rparr>\<rparr>;
                st = emit [Close (sock st), SleepFor 100] st
            in case connect_to_socket e (socket_path config) st of
                 (fd, st) \<Rightarrow> (fd < 0, st\<lparr>sock := fd\<rparr>))
         else
           (False, st\<lparr>stats := (stats st)\<lparr>messages_sent := messages_sent (stats st) + 1,
                                           bytes_sent := bytes_sent (stats st) + word_of_int sent\<rparr>\<rparr>))"

subsection \<open>The inner loop (line 207)\<close>

function send_batch :: "env \<Rightarrow> Config \<Rightarrow> int \<Rightarrow> state \<Rightarrow> bool \<times> state" where
  "send_batch e config i st =
     (if i < sint (batch_size config) then
        (case poll_running e st of
           (r, st1) \<Rightarrow>
             if r then
               (case send_one e config st1 of
                  (fatal, st2) \<Rightarrow>
                    if fatal then (True, st2) else send_batch e config (i + 1) st2)
             else (False, st1))
      else (False, st))"
  by pat_completeness auto
termination
  by (relation "measure (\<lambda>(e, config, i, st). nat (sint (batch_size config) - i))") auto

declare send_batch.simps [simp del]

subsection \<open>The outer loop (lines 198-242)\<close>

text \<open>
  The loop runs as long as the clock and the flag let it, so it takes fuel: one unit
  per batch tick. \<open>OutOfFuel\<close> is a run that is still inside the loop.
\<close>

datatype loop_exit = LoopDone | Fatal | OutOfFuel

text \<open>Lines 232-237: the live statistics, at most once per second.\<close>

definition maybe_print :: "env \<Rightarrow> state \<Rightarrow> state" where
  "maybe_print e st =
     (case read_clock e st of
        (now, st) \<Rightarrow>
          if tdiv (now - last_print_time st) 1000000000 \<ge> 1
          then (print_stats e False st)\<lparr>last_print_time := now\<rparr>
          else st)"

text \<open>
  Lines 239-241: \<^verbatim>\<open>next_batch_time += batch_interval_us\<close>, then
  \<^verbatim>\<open>sleep_until(next_batch_time)\<close>. The interval is given in nanoseconds.
\<close>

definition schedule_next :: "int \<Rightarrow> state \<Rightarrow> state" where
  "schedule_next batch_interval st =
     (let st = st\<lparr>next_batch_time := next_batch_time st + batch_interval\<rparr>
      in emit [SleepUntil (next_batch_time st)] st)"

fun run_loop :: "nat \<Rightarrow> env \<Rightarrow> Config \<Rightarrow> int \<Rightarrow> int \<Rightarrow> state \<Rightarrow> loop_exit \<times> state" where
  "run_loop 0 e config batch_interval test_start st = (OutOfFuel, st)"
| "run_loop (Suc fuel) e config batch_interval test_start st =
     (case poll_running e st of
        (r, st) \<Rightarrow>
          if \<not> r then (LoopDone, st)
          else
            (case read_clock e st of
               (now, st) \<Rightarrow>
                 if tdiv (now - test_start) 1000000000 \<ge> sint (duration config)
                 then (LoopDone, st)
                 else
                   (case send_batch e config 0 st of
                      (fatal, st) \<Rightarrow>
                        if fatal then (Fatal, st)
                        else run_loop fuel e config batch_interval test_start
                               (schedule_next batch_interval (maybe_print e st)))))"

subsection \<open>\<^verbatim>\<open>run_test\<close> (lines 173-248)\<close>

datatype stoi_error = InvalidArgument | OutOfRange

datatype outcome = Exit int | Crashed fault | Uncaught stoi_error | StillRunning

definition init_state :: state where
  "init_state =
     \<lparr>sock = 0,
      stats = \<lparr>messages_sent = 0, bytes_sent = 0, errors = 0, start_time = 0\<rparr>,
      counter = 0, next_batch_time = 0, last_print_time = 0,
      polls = 0, clocks = 0, conns = 0, sends = 0, trace = []\<rparr>"

definition run_test :: "env \<Rightarrow> Config \<Rightarrow> nat \<Rightarrow> outcome \<times> state" where
  "run_test e config fuel =
     (case read_clock e init_state of
        (t0, st) \<Rightarrow>
          (let st = st\<lparr>stats := (stats st)\<lparr>start_time := t0\<rparr>\<rparr>
           in case connect_to_socket e (socket_path config) st of
                (fd, st) \<Rightarrow>
                  (let st = st\<lparr>sock := fd\<rparr>
                   in if fd < 0 then (Exit 1, st)
                      else
                        (case batch_interval_us config of
                           Inl f \<Rightarrow> (Crashed f, st)
                         | Inr us \<Rightarrow>
                             (case read_clock e st of
                                (test_start, st) \<Rightarrow>
                                  (let st = st\<lparr>next_batch_time := test_start,
                                                last_print_time := test_start\<rparr>
                                   in case run_loop fuel e config (us * 1000) test_start st of
                                        (OutOfFuel, st) \<Rightarrow> (StillRunning, st)
                                      | (Fatal, st) \<Rightarrow> (Exit 1, st)
                                      | (LoopDone, st) \<Rightarrow>
                                          (Exit 0, emit [Close (sock st)] (print_stats e True st))))))))"

section \<open>Configuration file (lines 40-83) and \<^verbatim>\<open>main\<close> (lines 250-268)\<close>

text \<open>
  \<^verbatim>\<open>std::stoi\<close>: leading white space, an optional sign, then decimal digits; what
  follows the digits is ignored. It throws when there is no digit or when the value
  does not fit an \<^verbatim>\<open>int\<close>.
\<close>

definition is_space :: "char \<Rightarrow> bool" where
  "is_space c = (c \<in> set [CHR '' '', CHR 0x09, CHR 0x0A, CHR 0x0B, CHR 0x0C, CHR 0x0D])"

definition is_digit :: "char \<Rightarrow> bool" where
  "is_digit c = (c \<in> set ''0123456789'')"

definition digit_value :: "char \<Rightarrow> int" where
  "digit_value c = int (of_char c) - 48"

definition dec_value :: "string \<Rightarrow> int" where
  "dec_value ds = foldl (\<lambda>acc c. acc * 10 + digit_value c) 0 ds"

definition stoi :: "string \<Rightarrow> stoi_error + int" where
  "stoi str =
     (let s = dropWhile is_space str;
          neg = (s \<noteq> [] \<and> hd s = CHR ''-'');
          s = (if s \<noteq> [] \<and> (hd s = CHR ''-'' \<or> hd s = CHR ''+'') then tl s else s);
          ds = takeWhile is_digit s
      in if ds = [] then Inl InvalidArgument
         else (let v = (if neg then - dec_value ds else dec_value ds)
               in if v < - (2 ^ 31) \<or> 2 ^ 31 - 1 < v then Inl OutOfRange else Inr v))"

text \<open>Lines 69-72: blanks and tabs are erased at both ends.\<close>

definition is_blank :: "char \<Rightarrow> bool" where
  "is_blank c = (c = CHR '' '' \<or> c = CHR 0x09)"

definition trim :: "string \<Rightarrow> string" where
  "trim s = rev (dropWhile is_blank (rev (dropWhile is_blank s)))"

definition default_config :: Config where
  "default_config =
     \<lparr>socket_path = ''/tmp/fluentbit.sock'',
      message_format = ''<134>1 {timestamp} {hostname} test-app {pid} - - Test message #{counter}'',
      target_rate = 1000, duration = 60, batch_size = 100, verbose = False\<rparr>"

text \<open>The body of the \<^verbatim>\<open>getline\<close> loop (lines 59-79) on one line of the file.\<close>

definition apply_line :: "Config \<Rightarrow> string \<Rightarrow> stoi_error + Config" where
  "apply_line config line =
     (if line = [] \<or> hd line = CHR ''#'' then Inr config
      else
        (case find_str line ''='' of
           None \<Rightarrow> Inr config
         | Some pos \<Rightarrow>
             (let key = trim (take pos line);
                  val = trim (drop (pos + 1) line)
              in if key = ''socket_path'' then Inr (config\<lparr>socket_path := val\<rparr>)
                 else if key = ''message_format'' then Inr (config\<lparr>message_format := val\<rparr>)
                 else if key = ''target_rate'' then
                   (case stoi val of
                      Inl err \<Rightarrow> Inl err
                    | Inr v \<Rightarrow> Inr (config\<lparr>target_rate := word_of_int v\<rparr>))
                 else if key = ''duration'' then
                   (case stoi val of
                      Inl err \<Rightarrow> Inl err
                    | Inr v \<Rightarrow> Inr (config\<lparr>duration := word_of_int v\<rparr>))
                 else if key = ''batch_size'' then
                   (case stoi val of
                      Inl err \<Rightarrow> Inl err
                    | Inr v \<Rightarrow> Inr (config\<lparr>batch_size := word_of_int v\<rparr>))
                 else if key = ''verbose'' then
                   Inr (config\<lparr>verbose := (val = ''true'' \<or> val = ''1'')\<rparr>)
                 else Inr config)))"

fun load_lines :: "Config \<Rightarrow> string list \<Rightarrow> stoi_error + Config" where
  "load_lines config [] = Inr config"
| "load_lines config (line # rest) =
     (case apply_line config line of
        Inl err \<Rightarrow> Inl err
      | Inr config \<Rightarrow> load_lines config rest)"

text \<open>
  The argument is the list of the lines of the file, or \<open>None\<close> when the file cannot
  be opened.
\<close>

definition load_config :: "string list option \<Rightarrow> stoi_error + Config" where
  "load_config file =
     (case file of
        None \<Rightarrow> Inr default_config
      | Some ls \<Rightarrow> load_lines default_config ls)"

text \<open>An exception of \<^verbatim>\<open>std::stoi\<close> is not caught anywhere: the process is aborted.\<close>

definition main :: "env \<Rightarrow> string list option \<Rightarrow> nat \<Rightarrow> outcome \<times> state" where
  "main e file fuel =
     (case load_config file of
        Inl err \<Rightarrow> (Uncaught err, init_state)
      | Inr config \<Rightarrow> run_test e config fuel)"

section \<open>Reading a trace\<close>

fun is_send :: "event \<Rightarrow> bool" where
  "is_send (Send fd m r) = True"
| "is_send _ = False"

text \<open>The messages handed to \<^verbatim>\<open>send\<close>, in order.\<close>

fun send_payloads :: "event list \<Rightarrow> string list" where
  "send_payloads [] = []"
| "send_payloads (Send fd m r # evs) = m # send_payloads evs"
| "send_payloads (_ # evs) = send_payloads evs"


text \<open>The time points given to \<^verbatim>\<open>sleep_until\<close>, in order.\<close>

fun sleep_targets :: "event list \<Rightarrow> int list" where
  "sleep_targets [] = []"
| "sleep_targets (SleepUntil t # evs) = t # sleep_targets evs"
| "sleep_targets (_ # evs) = sleep_targets evs"

text \<open>The statistics printed under the header of the final report.\<close>

fun final_snapshots :: "event list \<Rightarrow> snapshot list" where
  "final_snapshots [] = []"
| "final_snapshots (PrintStats s # evs) =
     (if snap_final s then s # final_snapshots evs else final_snapshots evs)"
| "final_snapshots (_ # evs) = final_snapshots evs"

text \<open>
  Every \<^verbatim>\<open>send\<close> comes directly after a read of the flag that found it set. The
  boolean says whether the event before the list is such a read.
\<close>

fun guarded_from :: "bool \<Rightarrow> event list \<Rightarrow> bool" where
  "guarded_from ok [] = True"
| "guarded_from ok (ev # evs) = ((is_send ev \<longrightarrow> ok) \<and> guarded_from (ev = Poll True) evs)"

section \<open>Example environments and configurations\<close>

text \<open>
  An environment where every system call succeeds, every \<^verbatim>\<open>send\<close> writes 7 bytes,
  the flag stays set and the clock advances by 400 ms between two readings.
\<close>

definition env_up :: env where
  "env_up =
     \<lparr>running_at = (\<lambda>n. True),
      steady_now = (\<lambda>n. int n * 400000000),
      sys_socket = (\<lambda>n. 3 + int n),
      sys_connect = (\<lambda>n. 0),
      sys_send = (\<lambda>n. 7),
      ambient_at = (\<lambda>n. \<lparr>timestamp = ''2026-01-01T00:00:00.000Z'', hostname = ''host'', pid = 42\<rparr>)\<rparr>"

definition cfg_small :: Config where
  "cfg_small =
     \<lparr>socket_path = ''/tmp/s'', message_format = ''m{counter}'',
      target_rate = 1000, duration = 1, batch_size = 3, verbose = False\<rparr>"

text \<open>The second \<^verbatim>\<open>send\<close> fails; the reconnect that follows fails too.\<close>

definition env_reconnect_fails :: env where
  "env_reconnect_fails =
     env_up\<lparr>sys_send := (\<lambda>n. if n = 1 then - 1 else 7),
            sys_connect := (\<lambda>n. if n = 1 then - 1 else 0)\<rparr>"

text \<open>The second \<^verbatim>\<open>send\<close> fails; the reconnect that follows succeeds.\<close>

definition env_one_failure :: env where
  "env_one_failure = env_up\<lparr>sys_send := (\<lambda>n. if n = 1 then - 1 else 7)\<rparr>"



text \<open>The flag is found cleared from its fourth read on.\<close>

definition env_cancelled :: env where
  "env_cancelled = env_up\<lparr>running_at := (\<lambda>n. n < 3)\<rparr>"

text \<open>A burst configuration: 100000 messages per second in batches of 5000.\<close>

definition cfg_burst :: Config where
  "cfg_burst =
     \<lparr>socket_path = ''/tmp/s'', message_format = ''m{counter}'',
      target_rate = 100000, duration = 1, batch_size = 5000, verbose = False\<rparr>"

definition amb_example :: ambient where
  "amb_example = \<lparr>timestamp = ''2026-01-01T00:00:00.000Z'', hostname = ''host'', pid = 42\<rparr>"

text \<open>Statistics of a run that started at second 5 of the steady clock.\<close>

definition stats_late :: Stats where
  "stats_late = \<lparr>messages_sent = 10, bytes_sent = 4096, errors = 1, start_time = 5000000000\<rparr>"

section \<open>The batch interval\<close>

lemma sint_mult_wrap32: "sint ((x :: int32) * y) = wrap32 (sint x * sint y)"
  by (simp add: sint_word_ariths wrap32_def signed_take_bit_eq_take_bit_shift take_bit_eq_mod)

lemma wrap32_range: "- (2 ^ 31) \<le> wrap32 x \<and> wrap32 x < 2 ^ 31"
  unfolding wrap32_def by simp

lemma wrap32_congruent: "(wrap32 x - x) mod 2 ^ 32 = 0"
proof -
  have "(wrap32 x - x) mod 2 ^ 32 = ((x + 2 ^ 31) mod 2 ^ 32 - (x + 2 ^ 31)) mod 2 ^ 32"
    by (simp add: wrap32_def algebra_simps)
  also have "\<dots> = ((x + 2 ^ 31) - (x + 2 ^ 31)) mod 2 ^ 32"
    by (rule mod_diff_left_eq)
  finally show ?thesis by simp
qed

lemma tdiv_nonneg: "0 \<le> a \<Longrightarrow> 0 < b \<Longrightarrow> tdiv a b = a div b"
  by (simp add: tdiv_def)

lemma tdiv_neg: "a < 0 \<Longrightarrow> 0 < b \<Longrightarrow> tdiv a b \<le> 0"
  by (simp add: tdiv_def pos_imp_zdiv_nonneg_iff)

lemma wrapped_quotient_differs:
  assumes p: "2 ^ 31 \<le> p" and r: "0 < r" "r < 2 ^ 31"
  shows "tdiv (wrap32 p) r \<noteq> p div r"
proof (cases "wrap32 p < 0")
  case True
  then have "tdiv (wrap32 p) r \<le> 0"
    using r by (simp add: tdiv_neg)
  moreover have "0 < p div r"
    using p r by (simp add: pos_imp_zdiv_pos_iff)
  ultimately show ?thesis by linarith
next
  case False
  define w where "w = wrap32 p"
  have w0: "0 \<le> w" using False by (simp add: w_def)
  have wlt: "w < 2 ^ 31" using wrap32_range [of p] by (simp add: w_def)
  have "(w - p) mod 2 ^ 32 = 0" using wrap32_congruent [of p] by (simp add: w_def)
  then obtain k where k: "w - p = 2 ^ 32 * k"
    by (auto simp: mod_eq_0_iff_dvd dvd_def)
  have "w < p" using wlt p by linarith
  have "k < 0"
  proof (rule ccontr)
    assume "\<not> k < 0"
    then have "0 \<le> 2 ^ 32 * k" by simp
    with k \<open>w < p\<close> show False by linarith
  qed
  then have "k \<le> - 1" by simp
  then have "2 ^ 32 * k \<le> (2 ^ 32 :: int) * (- 1)"
    by (intro mult_left_mono) simp_all
  then have "w + 2 * r \<le> p" using k r by simp
  then have "(w + 2 * r) div r \<le> p div r"
    using r by (intro zdiv_mono1) simp_all
  moreover have "(w + 2 * r) div r = w div r + 2" using r by simp
  ultimately have "w div r < p div r" by linarith
  then show ?thesis using w0 r by (simp add: tdiv_nonneg w_def)
qed

text \<open>
  C10. The product \<^verbatim>\<open>batch_size * 1000000\<close> is a 32-bit product. For every
  configuration with \<open>batch_size > 2147\<close> and a positive target rate, the register holds
  a value \<open>w\<close> that differs from the mathematical product by a non-zero multiple of
  \<open>2^32\<close>, the interval is \<open>w / target_rate\<close>, and this is not
  \<open>batch_size * 1000000 / target_rate\<close>.
\<close>

theorem batch_interval_wraps:
  assumes bs: "2147 < sint (batch_size config)" and tr: "0 < sint (target_rate config)"
  shows "\<exists>w. w = wrap32 (sint (batch_size config) * 1000000)
           \<and> w \<noteq> sint (batch_size config) * 1000000
           \<and> (w - sint (batch_size config) * 1000000) mod 2 ^ 32 = 0
           \<and> batch_interval_us config = Inr (tdiv w (sint (target_rate config)))
           \<and> tdiv w (sint (target_rate config))
               \<noteq> sint (batch_size config) * 1000000 div sint (target_rate config)"
proof -
  define p where "p = sint (batch_size config) * 1000000"
  define r where "r = sint (target_rate config)"
  have prod: "sint (batch_size config * 1000000) = wrap32 p"
    by (simp add: sint_mult_wrap32 p_def)
  have big: "2 ^ 31 \<le> p" using bs by (simp add: p_def)
  have rlt: "r < 2 ^ 31" using sint_lt [of "target_rate config"] by (simp add: r_def)
  have rpos: "0 < r" using tr by (simp add: r_def)
  have ne: "wrap32 p \<noteq> p" using wrap32_range [of p] big by linarith
  have iv: "batch_interval_us config = Inr (tdiv (wrap32 p) r)"
    using rpos by (simp add: batch_interval_us_def prod r_def Let_def)
  have "tdiv (wrap32 p) r \<noteq> p div r"
    using big rpos rlt by (rule wrapped_quotient_differs)
  with ne iv wrap32_congruent [of p] show ?thesis
    by (simp add: p_def r_def)
qed

theorem batch_interval_wraps_witness:
  "2147 < sint (batch_size cfg_burst) \<and> 0 < sint (target_rate cfg_burst)
   \<and> batch_interval_us cfg_burst = Inr 7050
   \<and> batch_interval_us cfg_burst \<noteq> Inr (5000 * 1000000 div 100000)"
  using batch_interval_wraps [of cfg_burst]
  by (simp add: cfg_burst_def batch_interval_us_def tdiv_def)

section \<open>The message formatter\<close>

lemma find_str_skip:
  "c \<notin> set pre \<Longrightarrow> find_str (pre @ s) (c # r) = map_option (\<lambda>n. length pre + n) (find_str s (c # r))"
proof (induction pre)
  case Nil
  then show ?case by (simp add: option.map_ident)
next
  case (Cons a pre)
  then show ?case by (simp add: option.map_comp comp_def)
qed

lemma find_str_skip_None:
  "c \<notin> set pre \<Longrightarrow> find_str s (c # r) = None \<Longrightarrow> find_str (pre @ s) (c # r) = None"
  by (simp add: find_str_skip)

lemma find_str_skip_here:
  "c \<notin> set pre \<Longrightarrow> find_str (pre @ (c # r) @ s) (c # r) = Some (length pre)"
  by (simp add: find_str_skip)

lemma digit_char_not_brace: "d < 10 \<Longrightarrow> CHR ''{'' \<noteq> digit_char d"
proof -
  assume "d < 10"
  then have "d \<in> {0, 1, 2, 3, 4, 5, 6, 7, 8, 9}" by auto
  then show ?thesis by (auto simp: digit_char_def)
qed

lemma to_string_no_brace: "CHR ''{'' \<notin> set (to_string n)"
proof (induction n rule: to_string.induct)
  case (1 n)
  show ?case
  proof (cases "n < 10")
    case True
    then show ?thesis
      by (subst to_string.simps) (simp add: digit_char_not_brace)
  next
    case False
    then have "CHR ''{'' \<notin> set (to_string (n div 10))" by (rule "1.IH")
    moreover have "CHR ''{'' \<noteq> digit_char (n mod 10)" by (simp add: digit_char_not_brace)
    ultimately show ?thesis using False
      by (subst to_string.simps) simp
  qed
qed

lemma find_replace_is_replace_first:
  "pat \<noteq> [] \<Longrightarrow> n = length pat \<Longrightarrow>
   (case find_str s pat of None \<Rightarrow> s | Some pos \<Rightarrow> replace_at s pos n rep)
     = replace_first pat rep s"
proof (induction s)
  case Nil
  then show ?case by simp
next
  case (Cons x xs)
  show ?case
  proof (cases "prefix pat (x # xs)")
    case True
    then show ?thesis using Cons.prems by (simp add: replace_at_def)
  next
    case False
    then show ?thesis
      using Cons.IH [OF Cons.prems] Cons.prems
      by (cases "find_str xs pat") (simp_all add: replace_at_def)
  qed
qed

lemma find_str_Some_iff:
  "pat \<noteq> [] \<Longrightarrow>
   find_str s pat = Some p \<longleftrightarrow>
     p \<le> length s \<and> prefix pat (drop p s) \<and> (\<forall>q<p. \<not> prefix pat (drop q s))"
proof (induction s arbitrary: p)
  case Nil
  then show ?case by auto
next
  case (Cons x xs)
  show ?case
  proof (cases "prefix pat (x # xs)")
    case True
    show ?thesis
    proof (cases p)
      case 0
      then show ?thesis using True by simp
    next
      case (Suc p')
      then show ?thesis using True by auto
    qed
  next
    case False
    show ?thesis
    proof (cases p)
      case 0
      then show ?thesis using False by simp
    next
      case (Suc p')
      have "(\<forall>q<Suc p'. \<not> prefix pat (drop q (x # xs))) \<longleftrightarrow> (\<forall>q<p'. \<not> prefix pat (drop q xs))"
        using False by (auto simp: less_Suc_eq_0_disj)
      then show ?thesis using False Suc Cons.IH [OF Cons.prems, of p'] by auto
    qed
  qed
qed

lemma format_message_replace_first:
  "format_message amb t c =
     replace_first ''{pid}'' (to_string (pid amb))
       (replace_first ''{hostname}'' (hostname amb)
          (replace_first ''{timestamp}'' (timestamp amb)
             (replace_first ''{counter}'' (to_string (unat c)) t)))"
proof -
  have c: "(case find_str s ''{counter}'' of None \<Rightarrow> s | Some pos \<Rightarrow> replace_at s pos 9 rep)
      = replace_first ''{counter}'' rep s" for s rep
    by (rule find_replace_is_replace_first) simp_all
  have t: "(case find_str s ''{timestamp}'' of None \<Rightarrow> s | Some pos \<Rightarrow> replace_at s pos 11 rep)
      = replace_first ''{timestamp}'' rep s" for s rep
    by (rule find_replace_is_replace_first) simp_all
  have h: "(case find_str s ''{hostname}'' of None \<Rightarrow> s | Some pos \<Rightarrow> replace_at s pos 10 rep)
      = replace_first ''{hostname}'' rep s" for s rep
    by (rule find_replace_is_replace_first) simp_all
  have p: "(case find_str s ''{pid}'' of None \<Rightarrow> s | Some pos \<Rightarrow> replace_at s pos 5 rep)
      = replace_first ''{pid}'' rep s" for s rep
    by (rule find_replace_is_replace_first) simp_all
  show ?thesis
    unfolding format_message_def Let_def by (simp only: c t h p)
qed

text \<open>
  C7. \<open>Render("{counter}-{missing}", 5)\<close> is \<open>"5-{missing}"\<close>. For every template and
  counter value the result is the template with the first occurrence of
  \<open>{counter}\<close> replaced, then the first of \<open>{timestamp}\<close>, then of \<open>{hostname}\<close>, then
  of \<open>{pid}\<close>: one replacement at most for each. A template in which \<^verbatim>\<open>find\<close>
  locates none of the four comes back unchanged, so unknown placeholders stay verbatim.
  Where the text before a placeholder holds no brace and the text after it none of the
  other three placeholders, the result is the template with that one occurrence
  replaced, whatever further occurrences of the same placeholder follow.
\<close>

theorem format_message_first_occurrence_only:
  "format_message amb ''{counter}-{missing}'' 5 = ''5-{missing}''
   \<and> format_message amb t c =
         replace_first ''{pid}'' (to_string (pid amb))
           (replace_first ''{hostname}'' (hostname amb)
              (replace_first ''{timestamp}'' (timestamp amb)
                 (replace_first ''{counter}'' (to_string (unat c)) t)))
   \<and> (find_str t ''{counter}'' = None \<and> find_str t ''{timestamp}'' = None
        \<and> find_str t ''{hostname}'' = None \<and> find_str t ''{pid}'' = None
        \<longrightarrow> format_message amb t c = t)
   \<and> (CHR ''{'' \<notin> set pre \<and> find_str post ''{timestamp}'' = None
        \<and> find_str post ''{hostname}'' = None \<and> find_str post ''{pid}'' = None
        \<longrightarrow> format_message amb (pre @ ''{counter}'' @ post) c = pre @ to_string (unat c) @ post)
   \<and> (CHR ''{'' \<notin> set pre \<and> CHR ''{'' \<notin> set (timestamp amb)
        \<and> find_str post ''{counter}'' = None
        \<and> find_str post ''{hostname}'' = None \<and> find_str post ''{pid}'' = None
        \<longrightarrow> format_message amb (pre @ ''{timestamp}'' @ post) c = pre @ timestamp amb @ post)
   \<and> (CHR ''{'' \<notin> set pre \<and> CHR ''{'' \<notin> set (hostname amb)
        \<and> find_str post ''{counter}'' = None
        \<and> find_str post ''{timestamp}'' = None \<and> find_str post ''{pid}'' = None
        \<longrightarrow> format_message amb (pre @ ''{hostname}'' @ post) c = pre @ hostname amb @ post)
   \<and> (CHR ''{'' \<notin> set pre
        \<and> find_str post ''{counter}'' = None
        \<and> find_str post ''{timestamp}'' = None \<and> find_str post ''{hostname}'' = None
        \<longrightarrow> format_message amb (pre @ ''{pid}'' @ post) c = pre @ to_string (pid amb) @ post)"
proof (intro conjI impI)
  show "format_message amb ''{counter}-{missing}'' 5 = ''5-{missing}''"
    by (simp add: format_message_def replace_at_def to_string.simps digit_char_def)
next
  show "format_message amb t c =
         replace_first ''{pid}'' (to_string (pid amb))
           (replace_first ''{hostname}'' (hostname amb)
              (replace_first ''{timestamp}'' (timestamp amb)
                 (replace_first ''{counter}'' (to_string (unat c)) t)))"
    by (rule format_message_replace_first)
next
  assume "find_str t ''{counter}'' = None \<and> find_str t ''{timestamp}'' = None
        \<and> find_str t ''{hostname}'' = None \<and> find_str t ''{pid}'' = None"
  then show "format_message amb t c = t"
    by (simp add: format_message_def)
next
  assume a: "CHR ''{'' \<notin> set pre \<and> find_str post ''{timestamp}'' = None
        \<and> find_str post ''{hostname}'' = None \<and> find_str post ''{pid}'' = None"
  have here: "find_str (pre @ ''{counter}'' @ post) ''{counter}'' = Some (length pre)"
    by (insert a, rule find_str_skip_here; simp)
  have rep: "replace_at (pre @ ''{counter}'' @ post) (length pre) 9 (to_string (unat c))
             = pre @ to_string (unat c) @ post"
    by (simp add: replace_at_def)
  have nb: "CHR ''{'' \<notin> set (pre @ to_string (unat c))"
    using a by (simp add: to_string_no_brace)
  have rest: "find_str ((pre @ to_string (unat c)) @ post) ''{timestamp}'' = None"
     "find_str ((pre @ to_string (unat c)) @ post) ''{hostname}'' = None"
     "find_str ((pre @ to_string (unat c)) @ post) ''{pid}'' = None"
    by (insert a nb, rule find_str_skip_None; simp)+
  show "format_message amb (pre @ ''{counter}'' @ post) c = pre @ to_string (unat c) @ post"
    using here rep rest by (simp add: format_message_def del: find_str.simps)
next
  assume a: "CHR ''{'' \<notin> set pre \<and> CHR ''{'' \<notin> set (timestamp amb)
        \<and> find_str post ''{counter}'' = None
        \<and> find_str post ''{hostname}'' = None \<and> find_str post ''{pid}'' = None"
  have before: "find_str (pre @ ''{timestamp}'' @ post) ''{counter}'' = None"
    by (insert a, rule find_str_skip_None; simp)
  have here: "find_str (pre @ ''{timestamp}'' @ post) ''{timestamp}'' = Some (length pre)"
    by (insert a, rule find_str_skip_here; simp)
  have rep: "replace_at (pre @ ''{timestamp}'' @ post) (length pre) 11 (timestamp amb)
             = pre @ timestamp amb @ post"
    by (simp add: replace_at_def)
  have nb: "CHR ''{'' \<notin> set (pre @ timestamp amb)"
    using a by simp
  have rest: "find_str ((pre @ timestamp amb) @ post) ''{hostname}'' = None"
     "find_str ((pre @ timestamp amb) @ post) ''{pid}'' = None"
    by (insert a nb, rule find_str_skip_None; simp)+
  show "format_message amb (pre @ ''{timestamp}'' @ post) c = pre @ timestamp amb @ post"
    using before here rep rest by (simp add: format_message_def del: find_str.simps)
next
  assume a: "CHR ''{'' \<notin> set pre \<and> CHR ''{'' \<notin> set (hostname amb)
        \<and> find_str post ''{counter}'' = None
        \<and> find_str post ''{timestamp}'' = None \<and> find_str post ''{pid}'' = None"
  have before: "find_str (pre @ ''{hostname}'' @ post) ''{counter}'' = None"
     "find_str (pre @ ''{hostname}'' @ post) ''{timestamp}'' = None"
    by (insert a, rule find_str_skip_None; simp)+
  have here: "find_str (pre @ ''{hostname}'' @ post) ''{hostname}'' = Some (length pre)"
    by (insert a, rule find_str_skip_here; simp)
  have rep: "replace_at (pre @ ''{hostname}'' @ post) (length pre) 10 (hostname amb)
             = pre @ hostname amb @ post"
    by (simp add: replace_at_def)
  have nb: "CHR ''{'' \<notin> set (pre @ hostname amb)"
    using a by simp
  have rest: "find_str ((pre @ hostname amb) @ post) ''{pid}'' = None"
    by (insert a nb, rule find_str_skip_None; simp)+
  show "format_message amb (pre @ ''{hostname}'' @ post) c = pre @ hostname amb @ post"
    using before here rep rest by (simp add: format_message_def del: find_str.simps)
next
  assume a: "CHR ''{'' \<notin> set pre
        \<and> find_str post ''{counter}'' = None
        \<and> find_str post ''{timestamp}'' = None \<and> find_str post ''{hostname}'' = None"
  have before: "find_str (pre @ ''{pid}'' @ post) ''{counter}'' = None"
     "find_str (pre @ ''{pid}'' @ post) ''{timestamp}'' = None"
     "find_str (pre @ ''{pid}'' @ post) ''{hostname}'' = None"
    by (insert a, rule find_str_skip_None; simp)+
  have here: "find_str (pre @ ''{pid}'' @ post) ''{pid}'' = Some (length pre)"
    by (insert a, rule find_str_skip_here; simp)
  have rep: "replace_at (pre @ ''{pid}'' @ post) (length pre) 5 (to_string (pid amb))
             = pre @ to_string (pid amb) @ post"
    by (simp add: replace_at_def)
  show "format_message amb (pre @ ''{pid}'' @ post) c = pre @ to_string (pid amb) @ post"
    using before here rep by (simp add: format_message_def del: find_str.simps)
qed


theorem format_message_first_occurrence_only_witness:
  "format_message amb_example ''{missing}'' 7 = ''{missing}''
   \<and> format_message amb_example ''a{counter}b{counter}'' 7 = ''a7b{counter}''
   \<and> format_message amb_example ''a{timestamp}b{timestamp}'' 7
       = ''a2026-01-01T00:00:00.000Zb{timestamp}''
   \<and> format_message amb_example ''a{hostname}b{hostname}'' 7 = ''ahostb{hostname}''
   \<and> format_message amb_example ''a{pid}b{pid}'' 7 = ''a42b{pid}''"
  using format_message_first_occurrence_only [of amb_example "''{missing}''" 7 "''a''" "''b{counter}''"]
    format_message_first_occurrence_only [of amb_example "''{missing}''" 7 "''a''" "''b{timestamp}''"]
    format_message_first_occurrence_only [of amb_example "''{missing}''" 7 "''a''" "''b{hostname}''"]
    format_message_first_occurrence_only [of amb_example "''{missing}''" 7 "''a''" "''b{pid}''"]
  by (simp add: amb_example_def to_string.simps digit_char_def)

section \<open>The statistics snapshot\<close>

text \<open>
  C9. The snapshot's message rate is \<open>messages / elapsed\<close> and its byte rate
  \<open>bytes / elapsed\<close> when \<open>elapsed > 0\<close>; both are 0 when \<open>elapsed \<le> 0\<close>. The
  snapshot shows the counters as they are, and printing it changes neither the
  statistics nor the message counter: it adds one event to the trace.
\<close>

theorem snapshot_rates:
  "snap_elapsed (stats_snapshot s now final) = real_of_int (tdiv (now - start_time s) 1000000) / 1000
   \<and> snap_msg_rate (stats_snapshot s now final)
       = (if snap_elapsed (stats_snapshot s now final) > 0
          then real (unat (messages_sent s)) / snap_elapsed (stats_snapshot s now final) else 0)
   \<and> snap_byte_rate (stats_snapshot s now final)
       = (if snap_elapsed (stats_snapshot s now final) > 0
          then real (unat (bytes_sent s)) / snap_elapsed (stats_snapshot s now final) else 0)
   \<and> (snap_elapsed (stats_snapshot s now final) \<le> 0
        \<longrightarrow> snap_msg_rate (stats_snapshot s now final) = 0
            \<and> snap_byte_rate (stats_snapshot s now final) = 0)
   \<and> snap_messages (stats_snapshot s now final) = messages_sent s
   \<and> snap_bytes (stats_snapshot s now final) = bytes_sent s
   \<and> snap_errors (stats_snapshot s now final) = errors s
   \<and> stats (print_stats e final st) = stats st
   \<and> counter (print_stats e final st) = counter st
   \<and> trace (print_stats e final st)
       = trace st @ [PrintStats (stats_snapshot (stats st) (steady_now e (clocks st)) final)]"
  by (simp add: stats_snapshot_def print_stats_def read_clock_def emit_def Let_def)

theorem snapshot_rates_witness:
  "snap_elapsed (stats_snapshot stats_late 3000000000 True) \<le> 0
   \<and> snap_msg_rate (stats_snapshot stats_late 3000000000 True) = 0
   \<and> snap_byte_rate (stats_snapshot stats_late 3000000000 True) = 0
   \<and> snap_elapsed (stats_snapshot stats_late 7000000000 True) = 2
   \<and> snap_msg_rate (stats_snapshot stats_late 7000000000 True) = 5
   \<and> snap_byte_rate (stats_snapshot stats_late 7000000000 True) = 2048"
  using snapshot_rates [of stats_late 3000000000 True] snapshot_rates [of stats_late 7000000000 True]
  by (simp add: stats_late_def tdiv_def)

section \<open>Evaluating a run\<close>

text \<open>
  The loops unfold on states that are written out only, so that the simplifier runs a
  concrete run step by step.
\<close>

lemma send_batch_eval:
  "send_batch e config i \<lparr>sock = a, stats = b, counter = c, next_batch_time = d,
       last_print_time = f, polls = g, clocks = h, conns = j, sends = k, trace = l\<rparr> =
     (if i < sint (batch_size config) then
        (case poll_running e \<lparr>sock = a, stats = b, counter = c, next_batch_time = d,
       last_print_time = f, polls = g, clocks = h, conns = j, sends = k, trace = l\<rparr> of
           (r, st1) \<Rightarrow>
             if r then
               (case send_one e config st1 of
                  (fatal, st2) \<Rightarrow>
                    if fatal then (True, st2) else send_batch e config (i + 1) st2)
             else (False, st1))
      else (False, \<lparr>sock = a, stats = b, counter = c, next_batch_time = d,
       last_print_time = f, polls = g, clocks = h, conns = j, sends = k, trace = l\<rparr>))"
  by (rule send_batch.simps)

lemma run_loop_eval:
  "run_loop (Suc fuel) e config batch_interval test_start \<lparr>sock = a, stats = b, counter = c, next_batch_time = d,
       last_print_time = f, polls = g, clocks = h, conns = j, sends = k, trace = l\<rparr> =
     (case poll_running e \<lparr>sock = a, stats = b, counter = c, next_batch_time = d,
       last_print_time = f, polls = g, clocks = h, conns = j, sends = k, trace = l\<rparr> of
        (r, st) \<Rightarrow>
          if \<not> r then (LoopDone, st)
          else
            (case read_clock e st of
               (now, st) \<Rightarrow>
                 if tdiv (now - test_start) 1000000000 \<ge> sint (duration config)
                 then (LoopDone, st)
                 else
                   (case send_batch e config 0 st of
                      (fatal, st) \<Rightarrow>
                        if fatal then (Fatal, st)
                        else run_loop fuel e config batch_interval test_start
                               (schedule_next batch_interval (maybe_print e st)))))"
  by (rule run_loop.simps)

lemmas run_eval = main_def run_test_def init_state_def read_clock_def connect_to_socket_def emit_def
     batch_interval_us_def tdiv_def poll_running_def print_stats_def stats_snapshot_def Let_def
     send_batch_eval run_loop_eval send_one_def format_message_def replace_at_def
     to_string.simps digit_char_def maybe_print_def schedule_next_def


lemmas load_eval = load_config_def apply_line_def stoi_def trim_def is_blank_def is_space_def
  is_digit_def dec_value_def digit_value_def default_config_def Let_def

section \<open>Invariants of the loops\<close>

lemma poll_running_eq:
  "poll_running e st =
     (running_at e (polls st), st\<lparr>polls := polls st + 1, trace := trace st @ [Poll (running_at e (polls st))]\<rparr>)"
  by (simp add: poll_running_def emit_def Let_def)

lemma send_batch_invariant:
  assumes poll: "\<And>st. I st \<Longrightarrow> I (snd (poll_running e st))"
    and send: "\<And>st. I st \<Longrightarrow> 0 < sint (batch_size config) \<Longrightarrow> running_at e (polls st)
                 \<Longrightarrow> I (snd (send_one e config (snd (poll_running e st))))"
  shows "I st \<Longrightarrow> 0 \<le> i \<Longrightarrow> I (snd (send_batch e config i st))"
proof (induction "nat (sint (batch_size config) - i)" arbitrary: i st)
  case 0
  then show ?case by (subst send_batch.simps) simp
next
  case (Suc n)
  then have lt: "i < sint (batch_size config)" by linarith
  obtain r st1 where p: "poll_running e st = (r, st1)" by (cases "poll_running e st")
  show ?case
  proof (cases r)
    case False
    have "I st1" using poll [OF Suc.prems(1)] p by simp
    then show ?thesis using lt p False by (subst send_batch.simps) simp
  next
    case True
    obtain fatal st2 where s: "send_one e config st1 = (fatal, st2)"
      by (cases "send_one e config st1")
    have r: "running_at e (polls st)" using p True by (simp add: poll_running_eq)
    have pos: "0 < sint (batch_size config)" using lt Suc.prems(2) by simp
    have I2: "I st2" using send [OF Suc.prems(1) pos r] p s by simp
    show ?thesis
    proof (cases fatal)
      case True
      then show ?thesis using lt p \<open>r\<close> s I2 by (subst send_batch.simps) simp
    next
      case False
      have "n = nat (sint (batch_size config) - (i + 1))" using Suc.hyps(2) by linarith
      then have "I (snd (send_batch e config (i + 1) st2))"
        using I2 Suc.prems(2) by (intro Suc.hyps(1)) simp_all
      then show ?thesis using lt p \<open>r\<close> s False by (subst send_batch.simps) simp
    qed
  qed
qed

lemma run_loop_invariant:
  assumes poll: "\<And>st. I st \<Longrightarrow> I (snd (poll_running e st))"
    and send: "\<And>st. I st \<Longrightarrow> 0 < sint (batch_size config) \<Longrightarrow> running_at e (polls st)
                 \<Longrightarrow> I (snd (send_one e config (snd (poll_running e st))))"
    and clock: "\<And>st. I st \<Longrightarrow> I (snd (read_clock e st))"
    and print: "\<And>st. I st \<Longrightarrow> I (maybe_print e st)"
    and sched: "\<And>st. I st \<Longrightarrow> I (schedule_next iv st)"
  shows "I st \<Longrightarrow> I (snd (run_loop fuel e config iv t0 st))"
proof (induction fuel arbitrary: st)
  case 0
  then show ?case by simp
next
  case (Suc fuel)
  obtain r st1 where p: "poll_running e st = (r, st1)" by (cases "poll_running e st")
  have I1: "I st1" using poll [OF Suc.prems] p by simp
  obtain now st2 where c: "read_clock e st1 = (now, st2)" by (cases "read_clock e st1")
  have I2: "I st2" using clock [OF I1] c by simp
  obtain fatal st3 where b: "send_batch e config 0 st2 = (fatal, st3)"
    by (cases "send_batch e config 0 st2")
  have I3: "I st3" using send_batch_invariant [of I e config st2 0, OF poll send I2] b by simp
  have I4: "I (schedule_next iv (maybe_print e st3))" using I3 by (intro sched print)
  have "I (snd (run_loop fuel e config iv t0 (schedule_next iv (maybe_print e st3))))"
    using I4 by (rule Suc.IH)
  then show ?case using p c b I1 I2 I3 by simp
qed


lemma run_test_invariant:
  assumes init: "I init_state"
    and poll: "\<And>st. I st \<Longrightarrow> I (snd (poll_running e st))"
    and send: "\<And>st. I st \<Longrightarrow> 0 < sint (batch_size config) \<Longrightarrow> running_at e (polls st)
                 \<Longrightarrow> I (snd (send_one e config (snd (poll_running e st))))"
    and clock: "\<And>st. I st \<Longrightarrow> I (snd (read_clock e st))"
    and print: "\<And>st. I st \<Longrightarrow> I (maybe_print e st)"
    and sched: "\<And>st iv. I st \<Longrightarrow> I (schedule_next iv st)"
    and start: "\<And>st t. I st \<Longrightarrow> I (st\<lparr>stats := (stats st)\<lparr>start_time := t\<rparr>\<rparr>)"
    and conn: "\<And>st. I st \<Longrightarrow> I (snd (connect_to_socket e (socket_path config) st))"
    and setsock: "\<And>st fd. I st \<Longrightarrow> I (st\<lparr>sock := fd\<rparr>)"
    and times: "\<And>st t. I st \<Longrightarrow> I (st\<lparr>next_batch_time := t, last_print_time := t\<rparr>)"
    and final: "\<And>st. I st \<Longrightarrow> I (emit [Close (sock st)] (print_stats e True st))"
  shows "I (snd (run_test e config fuel))"
proof -
  obtain t0 st1 where c0: "read_clock e init_state = (t0, st1)"
    by (cases "read_clock e init_state")
  have I1: "I st1" using clock [OF init] c0 by simp
  define st2 where "st2 = st1\<lparr>stats := (stats st1)\<lparr>start_time := t0\<rparr>\<rparr>"
  have I2: "I st2" unfolding st2_def using I1 by (rule start)
  obtain fd st3 where cn: "connect_to_socket e (socket_path config) st2 = (fd, st3)"
    by (cases "connect_to_socket e (socket_path config) st2")
  have I3: "I st3" using conn [OF I2] cn by simp
  define st4 where "st4 = st3\<lparr>sock := fd\<rparr>"
  have I4: "I st4" unfolding st4_def using I3 by (rule setsock)
  obtain t1 st5 where c1: "read_clock e st4 = (t1, st5)" by (cases "read_clock e st4")
  have I5: "I st5" using clock [OF I4] c1 by simp
  define st6 where "st6 = st5\<lparr>next_batch_time := t1, last_print_time := t1\<rparr>"
  have I6: "I st6" unfolding st6_def using I5 by (rule times)
  show ?thesis
  proof (cases "fd < 0")
    case True
    then show ?thesis using c0 cn I4 by (simp add: run_test_def st2_def st4_def)
  next
    case False
    note fd = this
    show ?thesis
    proof (cases "batch_interval_us config")
      case (Inl f)
      then show ?thesis using c0 cn I4 fd by (simp add: run_test_def st2_def st4_def)
    next
      case (Inr us)
      obtain x st7 where l: "run_loop fuel e config (us * 1000) t1 st6 = (x, st7)"
        by (cases "run_loop fuel e config (us * 1000) t1 st6")
      have I7: "I st7"
        using run_loop_invariant [of I e config "us * 1000" st6 fuel t1, OF poll send clock print sched I6] l
        by simp
      have I8: "I (emit [Close (sock st7)] (print_stats e True st7))" using I7 by (rule final)
      show ?thesis using c0 cn fd Inr c1 l I7 I8
        by (cases x) (simp_all add: run_test_def st2_def st4_def st6_def)
    qed
  qed
qed


section \<open>The message counter\<close>

lemma send_payloads_append: "send_payloads (xs @ ys) = send_payloads xs @ send_payloads ys"
  by (induction xs rule: send_payloads.induct) simp_all

lemma send_one_counter: "counter (snd (send_one e config st)) = counter st + 1"
  by (simp add: send_one_def connect_to_socket_def emit_def Let_def)

lemma send_one_sends: "sends (snd (send_one e config st)) = sends st + 1"
  by (simp add: send_one_def connect_to_socket_def emit_def Let_def)

lemma send_one_payloads:
  "send_payloads (trace (snd (send_one e config st)))
     = send_payloads (trace st)
       @ [format_message (ambient_at e (sends st)) (message_format config) (counter st) @ [CHR 0x0A]]"
  by (simp add: send_one_def connect_to_socket_def emit_def Let_def send_payloads_append)

lemma connect_payloads:
  "send_payloads (trace (snd (connect_to_socket e path st))) = send_payloads (trace st)"
  by (simp add: connect_to_socket_def emit_def Let_def send_payloads_append)

lemma maybe_print_payloads:
  "send_payloads (trace (maybe_print e st)) = send_payloads (trace st)"
  by (simp add: maybe_print_def print_stats_def read_clock_def emit_def send_payloads_append)

lemma counter_invariant:
  fixes e config
  defines "I \<equiv> \<lambda>st. counter st = word_of_nat (sends st)
                 \<and> send_payloads (trace st)
                     = map (\<lambda>k. format_message (ambient_at e k) (message_format config) (word_of_nat k)
                                  @ [CHR 0x0A]) [0..<sends st]"
  shows "I (snd (run_test e config fuel))"
proof (rule run_test_invariant)
  show "I init_state" by (simp add: I_def init_state_def)
next
  fix st assume "I st"
  then show "I (snd (poll_running e st))"
    by (simp add: I_def poll_running_eq send_payloads_append)
next
  fix st assume "I st"
  then show "I (snd (send_one e config (snd (poll_running e st))))"
    by (simp add: I_def send_one_counter send_one_sends send_one_payloads poll_running_eq
        send_payloads_append)
next
  fix st assume "I st"
  then show "I (snd (read_clock e st))" by (simp add: I_def read_clock_def)
next
  fix st assume "I st"
  then show "I (maybe_print e st)"
    by (simp add: I_def maybe_print_payloads) (simp add: maybe_print_def print_stats_def read_clock_def emit_def)
next
  fix st iv assume "I st"
  then show "I (schedule_next iv st)"
    by (simp add: I_def schedule_next_def emit_def Let_def send_payloads_append)
next
  fix st t assume "I st"
  then show "I (st\<lparr>stats := (stats st)\<lparr>start_time := t\<rparr>\<rparr>)" by (simp add: I_def)
next
  fix st assume "I st"
  then show "I (snd (connect_to_socket e (socket_path config) st))"
    by (simp add: I_def connect_payloads) (simp add: connect_to_socket_def emit_def Let_def)
next
  fix st fd assume "I st"
  then show "I (st\<lparr>sock := fd\<rparr>)" by (simp add: I_def)
next
  fix st t assume "I st"
  then show "I (st\<lparr>next_batch_time := t, last_print_time := t\<rparr>)" by (simp add: I_def)
next
  fix st assume "I st"
  then show "I (emit [Close (sock st)] (print_stats e True st))"
    by (simp add: I_def print_stats_def read_clock_def emit_def send_payloads_append)
qed

text \<open>
  C4. In every run, whatever fails and however often the connection is re-opened, the
  message handed to the \<open>(k+1)\<close>-th \<^verbatim>\<open>send\<close> of the run is the template rendered
  with the counter value \<open>k\<close>: the counter starts at 0 and advances by one with each
  message, sent or failed. The counter is a 64-bit value, so it reads \<open>k\<close> for the first
  \<open>2^64\<close> messages.
\<close>

theorem counter_sequence:
  assumes "k < length (send_payloads (trace (snd (run_test e config fuel))))"
  shows "send_payloads (trace (snd (run_test e config fuel))) ! k
           = format_message (ambient_at e k) (message_format config) (word_of_nat k) @ [CHR 0x0A]
         \<and> (k < 2 ^ 64 \<longrightarrow> unat (word_of_nat k :: uint64) = k)
         \<and> length (send_payloads (trace (snd (run_test e config fuel))))
             = sends (snd (run_test e config fuel))"
proof -
  have inv: "send_payloads (trace (snd (run_test e config fuel)))
      = map (\<lambda>k. format_message (ambient_at e k) (message_format config) (word_of_nat k)
                   @ [CHR 0x0A]) [0..<sends (snd (run_test e config fuel))]"
    using counter_invariant [of e config fuel] by simp
  have len: "length (send_payloads (trace (snd (run_test e config fuel))))
      = sends (snd (run_test e config fuel))"
    by (subst inv) simp
  have "send_payloads (trace (snd (run_test e config fuel))) ! k
      = format_message (ambient_at e k) (message_format config) (word_of_nat k) @ [CHR 0x0A]"
    using assms len by (subst inv) simp
  moreover have "k < 2 ^ 64 \<longrightarrow> unat (word_of_nat k :: uint64) = k"
    by (simp add: unat_of_nat)
  ultimately show ?thesis using len by simp
qed

theorem counter_sequence_witness:
  "1 < length (send_payloads (trace (snd (run_test env_one_failure cfg_small 1))))
   \<and> send_payloads (trace (snd (run_test env_one_failure cfg_small 1))) ! 1 = ''m1'' @ [CHR 0x0A]
   \<and> send_payloads (trace (snd (run_test env_one_failure cfg_small 1)))
       = [''m0'' @ [CHR 0x0A], ''m1'' @ [CHR 0x0A], ''m2'' @ [CHR 0x0A]]
   \<and> conns (snd (run_test env_one_failure cfg_small 1)) = 2"
  using counter_sequence [of 1 env_one_failure cfg_small 1]
  by (simp add: run_eval env_one_failure_def env_up_def cfg_small_def del: run_loop.simps(2))

section \<open>Cancellation\<close>

lemma guarded_from_append:
  "guarded_from ok (xs @ ys)
     = (guarded_from ok xs \<and> guarded_from (if xs = [] then ok else last xs = Poll True) ys)"
  by (induction xs arbitrary: ok) auto

lemma sends_after_clear:
  "guarded_from ok ys \<Longrightarrow> Poll True \<notin> set ys \<Longrightarrow> length (filter is_send ys) \<le> (if ok then 1 else 0)"
proof (induction ys arbitrary: ok)
  case Nil
  then show ?case by simp
next
  case (Cons ev ys)
  from Cons.prems have ne: "ev \<noteq> Poll True" and rest: "Poll True \<notin> set ys" by auto
  from Cons.prems ne have g: "guarded_from False ys" by simp
  have "length (filter is_send ys) \<le> 0" using Cons.IH [OF g rest] by simp
  moreover have "is_send ev \<longrightarrow> ok" using Cons.prems by simp
  ultimately show ?case by auto
qed

lemma guarded_invariant: "guarded_from False (trace (snd (run_test e config fuel)))"
proof (rule run_test_invariant [where I = "\<lambda>st. guarded_from False (trace st)"])
  show "guarded_from False (trace init_state)" by (simp add: init_state_def)
next
  fix st :: state assume "guarded_from False (trace st)"
  then show "guarded_from False (trace (snd (poll_running e st)))"
    by (simp add: poll_running_eq guarded_from_append)
next
  fix st :: state assume "guarded_from False (trace st)" "running_at e (polls st)"
  then show "guarded_from False (trace (snd (send_one e config (snd (poll_running e st)))))"
    by (simp add: poll_running_eq send_one_def connect_to_socket_def emit_def Let_def
        guarded_from_append)
next
  fix st :: state assume "guarded_from False (trace st)"
  then show "guarded_from False (trace (snd (read_clock e st)))" by (simp add: read_clock_def)
next
  fix st :: state assume "guarded_from False (trace st)"
  then show "guarded_from False (trace (maybe_print e st))"
    by (simp add: maybe_print_def print_stats_def read_clock_def emit_def guarded_from_append)
next
  fix st :: state and iv :: int assume "guarded_from False (trace st)"
  then show "guarded_from False (trace (schedule_next iv st))"
    by (simp add: schedule_next_def emit_def Let_def guarded_from_append)
next
  fix st :: state and t :: int assume "guarded_from False (trace st)"
  then show "guarded_from False (trace (st\<lparr>stats := (stats st)\<lparr>start_time := t\<rparr>\<rparr>))" by simp
next
  fix st :: state assume "guarded_from False (trace st)"
  then show "guarded_from False (trace (snd (connect_to_socket e (socket_path config) st)))"
    by (simp add: connect_to_socket_def emit_def Let_def guarded_from_append)
next
  fix st :: state and fd :: int assume "guarded_from False (trace st)"
  then show "guarded_from False (trace (st\<lparr>sock := fd\<rparr>))" by simp
next
  fix st :: state and t :: int assume "guarded_from False (trace st)"
  then show "guarded_from False (trace (st\<lparr>next_batch_time := t, last_print_time := t\<rparr>))" by simp
next
  fix st :: state assume "guarded_from False (trace st)"
  then show "guarded_from False (trace (emit [Close (sock st)] (print_stats e True st)))"
    by (simp add: print_stats_def read_clock_def emit_def guarded_from_append)
qed

text \<open>
  C8. The flag is read before every single \<^verbatim>\<open>send\<close>: in the trace of every run each
  \<^verbatim>\<open>send\<close> comes directly after a read that found the flag set. So from any point of
  a run after which every read finds the flag cleared, at most one more message is
  sent, and none once a read has found it cleared.
\<close>

theorem cancel_stops_within_one_message:
  assumes split: "trace (snd (run_test e config fuel)) = before @ after"
    and cleared: "Poll True \<notin> set after"
  shows "guarded_from False (trace (snd (run_test e config fuel)))
         \<and> length (filter is_send after) \<le> 1
         \<and> (before = [] \<or> last before \<noteq> Poll True \<longrightarrow> filter is_send after = [])"
proof -
  have g: "guarded_from False (before @ after)"
    using guarded_invariant [of e config fuel] split by simp
  then have ga: "guarded_from (if before = [] then False else last before = Poll True) after"
    by (simp only: guarded_from_append)
  have le: "length (filter is_send after)
      \<le> (if (if before = [] then False else last before = Poll True) then 1 else 0)"
    using ga cleared by (rule sends_after_clear)
  then have "length (filter is_send after) \<le> 1" by (simp split: if_splits)
  moreover have "before = [] \<or> last before \<noteq> Poll True \<longrightarrow> filter is_send after = []"
    using le by (auto split: if_splits)
  ultimately show ?thesis using guarded_invariant [of e config fuel] by simp
qed


theorem cancel_stops_within_one_message_witness:
  "take 5 (trace (snd (run_test env_cancelled cfg_small 2)))
     = [Connect ''/tmp/s'' 3, Poll True, Poll True, Send 3 (''m0'' @ [CHR 0x0A]) 7, Poll True]
   \<and> Poll True \<notin> set (drop 5 (trace (snd (run_test env_cancelled cfg_small 2))))
   \<and> filter is_send (drop 5 (trace (snd (run_test env_cancelled cfg_small 2))))
       = [Send 3 (''m1'' @ [CHR 0x0A]) 7]
   \<and> length (filter is_send (drop 5 (trace (snd (run_test env_cancelled cfg_small 2))))) \<le> 1
   \<and> fst (run_test env_cancelled cfg_small 2) = Exit 0"
  using cancel_stops_within_one_message [of env_cancelled cfg_small 2
      "take 5 (trace (snd (run_test env_cancelled cfg_small 2)))"
      "drop 5 (trace (snd (run_test env_cancelled cfg_small 2)))"]
  by (simp add: run_eval env_cancelled_def env_up_def cfg_small_def numeral_2_eq_2
      del: run_loop.simps(2))

section \<open>A duration of zero\<close>







section \<open>A send failure inside a batch\<close>














section \<open>Configurations with a zero rate or batch size\<close>

lemma run_loop_trace_extends:
  "\<exists>evs. trace (snd (run_loop fuel e config iv t0 st)) = trace st @ evs"
proof (rule run_loop_invariant [where I = "\<lambda>s. \<exists>evs. trace s = trace st @ evs"])
  fix s :: state assume "\<exists>evs. trace s = trace st @ evs"
  then show "\<exists>evs. trace (snd (poll_running e s)) = trace st @ evs"
    by (auto simp: poll_running_eq)
next
  fix s :: state assume "\<exists>evs. trace s = trace st @ evs"
  then show "\<exists>evs. trace (snd (send_one e config (snd (poll_running e s)))) = trace st @ evs"
    by (auto simp: poll_running_eq send_one_def connect_to_socket_def emit_def Let_def)
next
  fix s :: state assume "\<exists>evs. trace s = trace st @ evs"
  then show "\<exists>evs. trace (snd (read_clock e s)) = trace st @ evs"
    by (simp add: read_clock_def)
next
  fix s :: state assume "\<exists>evs. trace s = trace st @ evs"
  then show "\<exists>evs. trace (maybe_print e s) = trace st @ evs"
    by (auto simp: maybe_print_def print_stats_def read_clock_def emit_def)
next
  fix s :: state assume "\<exists>evs. trace s = trace st @ evs"
  then show "\<exists>evs. trace (schedule_next iv s) = trace st @ evs"
    by (auto simp: schedule_next_def emit_def Let_def)
next
  show "\<exists>evs. trace st = trace st @ evs" by simp
qed

lemma run_test_first_event:
  "\<exists>r rest. trace (snd (run_test e config fuel)) = Connect (socket_path config) r # rest"
proof -
  obtain t0 st1 where c0: "read_clock e init_state = (t0, st1)"
    by (cases "read_clock e init_state")
  have t1: "trace st1 = []" using c0 by (auto simp: read_clock_def init_state_def)
  define st2 where "st2 = st1\<lparr>stats := (stats st1)\<lparr>start_time := t0\<rparr>\<rparr>"
  obtain fd st3 where cn: "connect_to_socket e (socket_path config) st2 = (fd, st3)"
    by (cases "connect_to_socket e (socket_path config) st2")
  have t3: "\<exists>r rest. trace st3 = Connect (socket_path config) r # rest"
    using cn t1 by (auto simp: connect_to_socket_def emit_def Let_def st2_def split: if_splits)
  define st4 where "st4 = st3\<lparr>sock := fd\<rparr>"
  have t4: "\<exists>r rest. trace st4 = Connect (socket_path config) r # rest"
    using t3 by (simp add: st4_def)
  obtain t5 st5 where c1: "read_clock e st4 = (t5, st5)" by (cases "read_clock e st4")
  define st6 where "st6 = st5\<lparr>next_batch_time := t5, last_print_time := t5\<rparr>"
  have t6: "trace st6 = trace st4" using c1 by (auto simp: st6_def read_clock_def)
  show ?thesis
  proof (cases "fd < 0")
    case True
    then show ?thesis using c0 cn t4 by (simp add: run_test_def st2_def st4_def)
  next
    case False
    note fd = this
    show ?thesis
    proof (cases "batch_interval_us config")
      case (Inl f)
      then show ?thesis using c0 cn t4 fd by (simp add: run_test_def st2_def st4_def)
    next
      case (Inr us)
      obtain x st7 where l: "run_loop fuel e config (us * 1000) t5 st6 = (x, st7)"
        by (cases "run_loop fuel e config (us * 1000) t5 st6")
      obtain evs where "trace st7 = trace st6 @ evs"
        using run_loop_trace_extends [of fuel e config "us * 1000" t5 st6] l by auto
      then have t7: "\<exists>r rest. trace st7 = Connect (socket_path config) r # rest"
        using t4 t6 by auto
      then have t8: "\<exists>r rest. trace (emit [Close (sock st7)] (print_stats e True st7))
          = Connect (socket_path config) r # rest"
        by (auto simp: print_stats_def read_clock_def emit_def)
      show ?thesis using c0 cn fd Inr c1 l t7 t8
        by (cases x) (simp_all add: run_test_def st2_def st4_def st6_def)
    qed
  qed
qed

lemma run_test_crashed:
  "fst (run_test e config fuel) = Crashed f \<Longrightarrow> batch_interval_us config = Inl f"
  by (simp add: run_test_def Let_def split: prod.splits sum.splits loop_exit.splits if_splits)

lemma no_batch_no_payloads:
  assumes "sint (batch_size config) = 0"
  shows "send_payloads (trace (snd (run_test e config fuel))) = []"
proof (rule run_test_invariant [where I = "\<lambda>s. send_payloads (trace s) = []"])
  show "send_payloads (trace init_state) = []" by (simp add: init_state_def)
next
  fix st :: state assume "send_payloads (trace st) = []"
  then show "send_payloads (trace (snd (poll_running e st))) = []"
    by (simp add: poll_running_eq send_payloads_append)
next
  fix st :: state assume "0 < sint (batch_size config)"
  then show "send_payloads (trace (snd (send_one e config (snd (poll_running e st))))) = []"
    using assms by simp
next
  fix st :: state assume "send_payloads (trace st) = []"
  then show "send_payloads (trace (snd (read_clock e st))) = []" by (simp add: read_clock_def)
next
  fix st :: state assume "send_payloads (trace st) = []"
  then show "send_payloads (trace (maybe_print e st)) = []" by (simp add: maybe_print_payloads)
next
  fix st :: state and iv :: int assume "send_payloads (trace st) = []"
  then show "send_payloads (trace (schedule_next iv st)) = []"
    by (simp add: schedule_next_def emit_def Let_def send_payloads_append)
next
  fix st :: state and t :: int assume "send_payloads (trace st) = []"
  then show "send_payloads (trace (st\<lparr>stats := (stats st)\<lparr>start_time := t\<rparr>\<rparr>)) = []" by simp
next
  fix st :: state assume "send_payloads (trace st) = []"
  then show "send_payloads (trace (snd (connect_to_socket e (socket_path config) st))) = []"
    by (simp add: connect_payloads)
next
  fix st :: state and fd :: int assume "send_payloads (trace st) = []"
  then show "send_payloads (trace (st\<lparr>sock := fd\<rparr>)) = []" by simp
next
  fix st :: state and t :: int assume "send_payloads (trace st) = []"
  then show "send_payloads (trace (st\<lparr>next_batch_time := t, last_print_time := t\<rparr>)) = []" by simp
next
  fix st :: state assume "send_payloads (trace st) = []"
  then show "send_payloads (trace (emit [Close (sock st)] (print_stats e True st))) = []"
    by (simp add: print_stats_def read_clock_def emit_def send_payloads_append)
qed

text \<open>
  No check of the target rate or of the batch size exists: the first thing every run
  does is the connection attempt. With a batch size of 0 and a target rate other than
  0 the interval is 0 and the run sends no message; with a positive target rate the
  division is defined.
\<close>

lemma no_validation_before_connect:
  "load_config (Some [''target_rate=0'', ''batch_size=0''])
     = Inr (default_config\<lparr>target_rate := 0, batch_size := 0\<rparr>)
   \<and> (\<exists>r rest. trace (snd (run_test e config fuel)) = Connect (socket_path config) r # rest)
   \<and> (sint (batch_size config) = 0 \<and> sint (target_rate config) \<noteq> 0
        \<longrightarrow> batch_interval_us config = Inr 0
            \<and> fst (run_test e config fuel) \<noteq> Crashed DivisionFault
            \<and> send_payloads (trace (snd (run_test e config fuel))) = [])
   \<and> (0 < sint (target_rate config)
        \<longrightarrow> batch_interval_us config
             = Inr (tdiv (sint (batch_size config * 1000000)) (sint (target_rate config))))"
proof (intro conjI impI)
  show "load_config (Some [''target_rate=0'', ''batch_size=0''])
     = Inr (default_config\<lparr>target_rate := 0, batch_size := 0\<rparr>)"
    by (simp add: load_eval)
next
  show "\<exists>r rest. trace (snd (run_test e config fuel)) = Connect (socket_path config) r # rest"
    by (rule run_test_first_event)
next
  assume a: "sint (batch_size config) = 0 \<and> sint (target_rate config) \<noteq> 0"
  show iv: "batch_interval_us config = Inr 0"
    using a by (simp add: batch_interval_us_def sint_mult_wrap32 wrap32_def tdiv_def Let_def)
  show "fst (run_test e config fuel) \<noteq> Crashed DivisionFault"
    using run_test_crashed [of e config fuel DivisionFault] iv by auto
  show "send_payloads (trace (snd (run_test e config fuel))) = []"
    using a by (simp add: no_batch_no_payloads)
next
  assume "0 < sint (target_rate config)"
  then show "batch_interval_us config
             = Inr (tdiv (sint (batch_size config * 1000000)) (sint (target_rate config)))"
    by (simp add: batch_interval_us_def Let_def)
qed

lemma no_batch_example:
  "sint (batch_size (cfg_small\<lparr>batch_size := 0\<rparr>)) = 0
   \<and> sint (target_rate (cfg_small\<lparr>batch_size := 0\<rparr>)) \<noteq> 0
   \<and> 0 < sint (target_rate (cfg_small\<lparr>batch_size := 0\<rparr>))
   \<and> batch_interval_us (cfg_small\<lparr>batch_size := 0\<rparr>) = Inr 0
   \<and> fst (run_test env_up (cfg_small\<lparr>batch_size := 0\<rparr>) 1) = StillRunning
   \<and> send_payloads (trace (snd (run_test env_up (cfg_small\<lparr>batch_size := 0\<rparr>) 1))) = []
   \<and> trace (snd (run_test env_up (cfg_small\<lparr>batch_size := 0\<rparr>) 1))
       = [Connect ''/tmp/s'' 3, Poll True, SleepUntil 400000000]"
  using no_validation_before_connect [of env_up "cfg_small\<lparr>batch_size := 0\<rparr>" 1]
  by (simp add: run_eval env_up_def cfg_small_def del: run_loop.simps(2))

text \<open>With a target rate of 0, every run that connects divides by zero.\<close>

lemma zero_rate_always_faults:
  assumes "sint (target_rate config) = 0" "0 \<le> sys_socket e 0" "0 \<le> sys_connect e 0"
  shows "fst (run_test e config fuel) = Crashed DivisionFault
         \<and> trace (snd (run_test e config fuel)) = [Connect (socket_path config) (sys_socket e 0)]"
  using assms
  by (simp add: run_test_def init_state_def read_clock_def connect_to_socket_def emit_def
      batch_interval_us_def Let_def)

text \<open>
  C1. The claim asks for a run that is refused before it connects, so that nothing is
  ever divided by zero. The program has no such check: \<^verbatim>\<open>load_config\<close> accepts the
  line \<^verbatim>\<open>target_rate=0\<close>, the run connects, and the interval is then computed with
  a divisor of 0.
\<close>

theorem zero_rate_connects_then_divides:
  "load_config (Some [''target_rate=0'']) = Inr (default_config\<lparr>target_rate := 0\<rparr>)
   \<and> fst (main env_up (Some [''target_rate=0'']) 1) = Crashed DivisionFault
   \<and> trace (snd (main env_up (Some [''target_rate=0'']) 1)) = [Connect ''/tmp/fluentbit.sock'' 3]"
  by (simp add: load_eval run_eval env_up_def del: run_loop.simps(2))


section \<open>The final report and the batch boundaries\<close>

lemma sleep_targets_append: "sleep_targets (xs @ ys) = sleep_targets xs @ sleep_targets ys"
  by (induction xs rule: sleep_targets.induct) simp_all

lemma final_snapshots_append: "final_snapshots (xs @ ys) = final_snapshots xs @ final_snapshots ys"
  by (induction xs rule: final_snapshots.induct) simp_all

lemma run_loop_sleep_targets:
  "\<exists>n. sleep_targets (trace (snd (run_loop fuel e config iv t0 st)))
         = sleep_targets (trace st) @ map (\<lambda>k. next_batch_time st + iv * int (Suc k)) [0..<n]
       \<and> next_batch_time (snd (run_loop fuel e config iv t0 st)) = next_batch_time st + iv * int n"
proof (rule run_loop_invariant
    [where I = "\<lambda>s. \<exists>n. sleep_targets (trace s)
         = sleep_targets (trace st) @ map (\<lambda>k. next_batch_time st + iv * int (Suc k)) [0..<n]
       \<and> next_batch_time s = next_batch_time st + iv * int n"])
  fix s :: state
  assume "\<exists>n. sleep_targets (trace s)
         = sleep_targets (trace st) @ map (\<lambda>k. next_batch_time st + iv * int (Suc k)) [0..<n]
       \<and> next_batch_time s = next_batch_time st + iv * int n"
  then obtain n where n: "sleep_targets (trace s)
         = sleep_targets (trace st) @ map (\<lambda>k. next_batch_time st + iv * int (Suc k)) [0..<n]"
       "next_batch_time s = next_batch_time st + iv * int n" by blast
  show "\<exists>n. sleep_targets (trace (snd (poll_running e s)))
         = sleep_targets (trace st) @ map (\<lambda>k. next_batch_time st + iv * int (Suc k)) [0..<n]
       \<and> next_batch_time (snd (poll_running e s)) = next_batch_time st + iv * int n"
    using n by (intro exI [of _ n]) (simp add: poll_running_eq sleep_targets_append)
  show "\<exists>n. sleep_targets (trace (snd (send_one e config (snd (poll_running e s)))))
         = sleep_targets (trace st) @ map (\<lambda>k. next_batch_time st + iv * int (Suc k)) [0..<n]
       \<and> next_batch_time (snd (send_one e config (snd (poll_running e s))))
           = next_batch_time st + iv * int n"
    using n by (intro exI [of _ n])
      (simp add: poll_running_eq send_one_def connect_to_socket_def emit_def Let_def
        sleep_targets_append)
  show "\<exists>n. sleep_targets (trace (snd (read_clock e s)))
         = sleep_targets (trace st) @ map (\<lambda>k. next_batch_time st + iv * int (Suc k)) [0..<n]
       \<and> next_batch_time (snd (read_clock e s)) = next_batch_time st + iv * int n"
    using n by (intro exI [of _ n]) (simp add: read_clock_def)
  show "\<exists>n. sleep_targets (trace (maybe_print e s))
         = sleep_targets (trace st) @ map (\<lambda>k. next_batch_time st + iv * int (Suc k)) [0..<n]
       \<and> next_batch_time (maybe_print e s) = next_batch_time st + iv * int n"
    using n by (intro exI [of _ n])
      (simp add: maybe_print_def print_stats_def read_clock_def emit_def sleep_targets_append)
  show "\<exists>n. sleep_targets (trace (schedule_next iv s))
         = sleep_targets (trace st) @ map (\<lambda>k. next_batch_time st + iv * int (Suc k)) [0..<n]
       \<and> next_batch_time (schedule_next iv s) = next_batch_time st + iv * int n"
    using n by (intro exI [of _ "Suc n"])
      (simp add: schedule_next_def emit_def Let_def sleep_targets_append algebra_simps)
next
  show "\<exists>n. sleep_targets (trace st)
         = sleep_targets (trace st) @ map (\<lambda>k. next_batch_time st + iv * int (Suc k)) [0..<n]
       \<and> next_batch_time st = next_batch_time st + iv * int n"
    by (intro exI [of _ 0]) simp
qed

lemma run_loop_final_snapshots:
  "final_snapshots (trace (snd (run_loop fuel e config iv t0 st))) = final_snapshots (trace st)"
proof (rule run_loop_invariant
    [where I = "\<lambda>s. final_snapshots (trace s) = final_snapshots (trace st)"])
  fix s :: state
  assume a: "final_snapshots (trace s) = final_snapshots (trace st)"
  show "final_snapshots (trace (snd (poll_running e s))) = final_snapshots (trace st)"
    using a by (simp add: poll_running_eq final_snapshots_append)
  show "final_snapshots (trace (snd (send_one e config (snd (poll_running e s)))))
          = final_snapshots (trace st)"
    using a by (simp add: poll_running_eq send_one_def connect_to_socket_def emit_def Let_def
        final_snapshots_append)
  show "final_snapshots (trace (snd (read_clock e s))) = final_snapshots (trace st)"
    using a by (simp add: read_clock_def)
  show "final_snapshots (trace (maybe_print e s)) = final_snapshots (trace st)"
    using a by (simp add: maybe_print_def print_stats_def read_clock_def emit_def
        final_snapshots_append stats_snapshot_def Let_def)
  show "final_snapshots (trace (schedule_next iv s)) = final_snapshots (trace st)"
    using a by (simp add: schedule_next_def emit_def Let_def final_snapshots_append)
next
  show "final_snapshots (trace st) = final_snapshots (trace st)" by simp
qed


lemma run_test_stats_and_sleeps:
  "(fst (run_test e config fuel) = Exit 0
      \<longrightarrow> length (final_snapshots (trace (snd (run_test e config fuel)))) = 1)
   \<and> (fst (run_test e config fuel) \<noteq> Exit 0
      \<longrightarrow> final_snapshots (trace (snd (run_test e config fuel))) = [])
   \<and> (\<exists>n. sleep_targets (trace (snd (run_test e config fuel)))
         = map (\<lambda>k. steady_now e 1
                      + (case batch_interval_us config of Inl f \<Rightarrow> 0 | Inr us \<Rightarrow> us * 1000)
                        * int (Suc k)) [0..<n])"
proof -
  obtain t0 st1 where c0: "read_clock e init_state = (t0, st1)"
    by (cases "read_clock e init_state")
  have t1: "trace st1 = []" "clocks st1 = 1"
    using c0 by (auto simp: read_clock_def init_state_def)
  define st2 where "st2 = st1\<lparr>stats := (stats st1)\<lparr>start_time := t0\<rparr>\<rparr>"
  obtain fd st3 where cn: "connect_to_socket e (socket_path config) st2 = (fd, st3)"
    by (cases "connect_to_socket e (socket_path config) st2")
  define st4 where "st4 = st3\<lparr>sock := fd\<rparr>"
  have t4: "final_snapshots (trace st4) = []" "sleep_targets (trace st4) = []" "clocks st4 = 1"
    using cn t1 by (auto simp: connect_to_socket_def emit_def Let_def st2_def st4_def split: if_splits)
  obtain t5 st5 where c1: "read_clock e st4 = (t5, st5)" by (cases "read_clock e st4")
  define st6 where "st6 = st5\<lparr>next_batch_time := t5, last_print_time := t5\<rparr>"
  have t5: "t5 = steady_now e 1" using c1 t4 by (auto simp: read_clock_def)
  have t6: "final_snapshots (trace st6) = []" "sleep_targets (trace st6) = []"
    "next_batch_time st6 = steady_now e 1"
    using c1 t4 t5 by (auto simp: st6_def read_clock_def)
  have none: "\<exists>n. ([] :: int list) = map (\<lambda>k. steady_now e 1
                      + (case batch_interval_us config of Inl f \<Rightarrow> 0 | Inr us \<Rightarrow> us * 1000)
                        * int (Suc k)) [0..<n]"
    by (intro exI [of _ 0]) simp
  show ?thesis
  proof (cases "fd < 0")
    case True
    then show ?thesis using c0 cn t4 none by (simp add: run_test_def st2_def st4_def)
  next
    case False
    note fd = this
    show ?thesis
    proof (cases "batch_interval_us config")
      case (Inl f)
      then show ?thesis using c0 cn t4 fd none by (simp add: run_test_def st2_def st4_def)
    next
      case (Inr us)
      obtain x st7 where l: "run_loop fuel e config (us * 1000) t5 st6 = (x, st7)"
        by (cases "run_loop fuel e config (us * 1000) t5 st6")
      have f7: "final_snapshots (trace st7) = []"
        using run_loop_final_snapshots [of fuel e config "us * 1000" t5 st6] l t6 by simp
      obtain n where s7: "sleep_targets (trace st7)
          = map (\<lambda>k. steady_now e 1 + us * 1000 * int (Suc k)) [0..<n]"
        using run_loop_sleep_targets [of fuel e config "us * 1000" t5 st6] l t6 by auto
      have f8: "length (final_snapshots (trace (emit [Close (sock st7)] (print_stats e True st7)))) = 1"
        using f7 by (simp add: print_stats_def read_clock_def emit_def final_snapshots_append
            stats_snapshot_def Let_def)
      have s8: "sleep_targets (trace (emit [Close (sock st7)] (print_stats e True st7)))
          = map (\<lambda>k. steady_now e 1 + us * 1000 * int (Suc k)) [0..<n]"
        using s7 by (simp add: print_stats_def read_clock_def emit_def sleep_targets_append)
      have ex7: "\<exists>n. sleep_targets (trace st7)
          = map (\<lambda>k. steady_now e 1 + us * 1000 * int (Suc k)) [0..<n]"
        using s7 by blast
      have ex8: "\<exists>n. sleep_targets (trace (emit [Close (sock st7)] (print_stats e True st7)))
          = map (\<lambda>k. steady_now e 1 + us * 1000 * int (Suc k)) [0..<n]"
        using s8 by blast
      show ?thesis using c0 cn fd Inr c1 l f7 f8 ex7 ex8
        by (cases x) (simp_all add: run_test_def st2_def st4_def st6_def)
    qed
  qed
qed

text \<open>
  The final report is printed by the runs that return 0, once, and by no other run.
\<close>

lemma final_stats_only_on_exit_0:
  "length (final_snapshots (trace (snd (run_test e config fuel))))
     = (if fst (run_test e config fuel) = Exit 0 then 1 else 0)"
  using run_test_stats_and_sleeps [of e config fuel] by simp


text \<open>
  C2. The second \<^verbatim>\<open>send\<close> of the run fails and so does the reconnect: the run
  returns 1 right there, so it ends and its exit code is not 0. The failure is counted,
  but the trace ends with the failed connection attempt: the final statistics are not
  printed.
\<close>

theorem reconnect_failure_exits_without_final_stats:
  "fst (run_test env_reconnect_fails cfg_small 1) = Exit 1
   \<and> trace (snd (run_test env_reconnect_fails cfg_small 1))
       = [Connect ''/tmp/s'' 3, Poll True,
          Poll True, Send 3 (''m0'' @ [CHR 0x0A]) 7,
          Poll True, Send 3 (''m1'' @ [CHR 0x0A]) (- 1),
          Close 3, SleepFor 100, Connect ''/tmp/s'' (- 1), Close 4]
   \<and> final_snapshots (trace (snd (run_test env_reconnect_fails cfg_small 1))) = []
   \<and> errors (stats (snd (run_test env_reconnect_fails cfg_small 1))) = 1"
  by (simp add: run_eval env_reconnect_fails_def env_up_def cfg_small_def del: run_loop.simps(2))

text \<open>
  Every time point given to \<^verbatim>\<open>sleep_until\<close> is the start of the test plus a
  multiple of the interval computed before the loop: boundary \<open>k\<close> is the previous
  boundary plus the interval, whatever the clock read in between.
\<close>

lemma sleep_boundaries_anchored:
  assumes "batch_interval_us config = Inr us"
  shows "\<exists>n. sleep_targets (trace (snd (run_test e config fuel)))
           = map (\<lambda>k. steady_now e 1 + us * 1000 * int (Suc k)) [0..<n]"
  using run_test_stats_and_sleeps [of e config fuel] assms by simp


text \<open>
  C6. The boundaries are anchored as the claim says, but the interval is not the
  claim's \<open>batchSize * 1000000 / targetRate\<close> microseconds. For 100000 messages per
  second in batches of 5000 that is 50000 microseconds; the interval the program
  computes is 7050 microseconds, since \<open>5000 * 1000000\<close> does not fit 32 bits.
\<close>

theorem burst_interval_example:
  "batch_interval_us cfg_burst = Inr 7050
   \<and> sint (batch_size cfg_burst) * 1000000 div sint (target_rate cfg_burst) = 50000"
  by (simp add: cfg_burst_def batch_interval_us_def tdiv_def)

end
